theory Spec2Isabelle
  imports Main "HOL-Library.Word"
begin

section \<open>Strings\<close>




text \<open>\<open>s.startswith(p)\<close> and \<open>s.endswith(p)\<close>.\<close>

definition startswith :: "string \<Rightarrow> string \<Rightarrow> bool" where
  "startswith s p = (take (length p) s = p)"




text \<open>
  \<open>str.lower\<close>. It maps the ASCII capitals to their small letters and U+212A KELVIN SIGN
  (bytes \<open>E2 84 AA\<close>) to \<open>k\<close>: that is the one character outside ASCII whose lower case
  lies in ASCII. Every other non-ASCII character is left as it is; its lower case in Python is
  not ASCII either, and the scripts only compare the lowered name with ASCII names, so each
  such comparison comes out as in Python.
\<close>

definition lower_char :: "char \<Rightarrow> char" where
  "lower_char c =
     (case map_of (zip ''ABCDEFGHIJKLMNOPQRSTUVWXYZ'' ''abcdefghijklmnopqrstuvwxyz'') c of
        None \<Rightarrow> c
      | Some d \<Rightarrow> d)"

definition kelvin_sign :: string where
  "kelvin_sign = [CHR 0xE2, CHR 0x84, CHR 0xAA]"

fun lower :: "string \<Rightarrow> string" where
  "lower (a # b # c # cs) =
     (if [a, b, c] = kelvin_sign then CHR ''k'' # lower cs
      else lower_char a # lower (b # c # cs))"
| "lower (a # cs) = lower_char a # lower cs"
| "lower [] = []"




text \<open>\<open>os.path.basename\<close> of \<open>posixpath\<close>: what follows the last slash.\<close>

definition basename :: "string \<Rightarrow> string" where
  "basename p = rev (takeWhile (\<lambda>c. c \<noteq> CHR ''/'') (rev p))"

section \<open>Process descriptors and the session classifier\<close>

text \<open>
  An entry of \<open>window.child.foreground_processes\<close> is a dict read with
  \<open>proc.get('cmdline')\<close> and \<open>proc.get('pid')\<close>: either key may be absent or \<open>None\<close>.
\<close>

record proc =
  cmdline :: "string list option"
  proc_pid :: "int option"

datatype error = AttributeError | ValueError | OSError | IndexError

text \<open>Reading \<open>window.child.foreground_processes\<close> may raise (no child, a dead process).\<close>

record window =
  foreground_processes :: "error + proc list"

text \<open>The \<open>info\<close> dict of \<open>check_ssh_session\<close>, and that of \<open>is_ssh_window\<close>, which adds \<open>pid\<close>.\<close>

record ssh_info =
  is_ssh :: bool
  is_kitten_ssh :: bool
  host :: "string option"

record info = ssh_info +
  pid :: "int option"

text \<open>\<open>list(proc.get('cmdline') or [])\<close>.\<close>

definition argv :: "proc \<Rightarrow> string list" where
  "argv p = (case cmdline p of None \<Rightarrow> [] | Some l \<Rightarrow> l)"

subsection \<open>\<open>smart_paste.is_ssh_window\<close>\<close>

text \<open>The host loop of the \<open>kitten\<close> branch, over \<open>cmdline[2:]\<close>.\<close>

fun kitten_host_loop :: "info \<Rightarrow> string list \<Rightarrow> info" where
  "kitten_host_loop info [] = info"
| "kitten_host_loop info (arg # args) =
     (if \<not> startswith arg ''-'' \<and> CHR ''@'' \<in> set arg then info\<lparr>host := Some arg\<rparr>
      else if \<not> startswith arg ''-'' \<and> CHR ''.'' \<in> set arg then info\<lparr>host := Some arg\<rparr>
      else kitten_host_loop info args)"

text \<open>The host loop of the \<open>ssh\<close> branch, called on \<open>reversed(cmdline[1:])\<close>.\<close>

fun ssh_host_loop :: "info \<Rightarrow> string list \<Rightarrow> info" where
  "ssh_host_loop info [] = info"
| "ssh_host_loop info (arg # args) =
     (if \<not> startswith arg ''-'' then info\<lparr>host := Some arg\<rparr>
      else ssh_host_loop info args)"

text \<open>The loop over the processes; \<open>return info\<close> ends it, \<open>continue\<close> and falling out of
  the \<open>if\<close> chain go on with the next process.\<close>

fun scan_procs :: "info \<Rightarrow> proc list \<Rightarrow> info" where
  "scan_procs info [] = info"
| "scan_procs info (p # ps) =
     (if argv p = [] then scan_procs info ps
      else
        let cmd = lower (basename (hd (argv p)));
            info1 = info\<lparr>pid := proc_pid p\<rparr>
        in
          if cmd = ''kitten'' then
            (if length (argv p) > 1 \<and> argv p ! 1 \<in> set [''ssh'', ''run-shell'']
             then kitten_host_loop (info1\<lparr>is_ssh := True, is_kitten_ssh := True\<rparr>)
                    (drop 2 (argv p))
             else scan_procs info1 ps)
          else if cmd = ''ssh'' then
            ssh_host_loop (info1\<lparr>is_ssh := True\<rparr>) (rev (drop 1 (argv p)))
          else if cmd \<in> set [''mosh'', ''mosh-client''] then
            info1\<lparr>is_ssh := True\<rparr>
          else scan_procs info1 ps)"

definition info0 :: info where
  "info0 = \<lparr>is_ssh = False, is_kitten_ssh = False, host = None, pid = None\<rparr>"

text \<open>\<open>try: ... except Exception: pass\<close> around the loop, then \<open>return info\<close>.\<close>

definition is_ssh_window :: "window \<Rightarrow> info" where
  "is_ssh_window w =
     (case foreground_processes w of
        Inl e \<Rightarrow> info0
      | Inr ps \<Rightarrow> scan_procs info0 ps)"

subsection \<open>\<open>ssh_drop_upload.check_ssh_session\<close>\<close>

fun drop_kitten_host_loop :: "ssh_info \<Rightarrow> string list \<Rightarrow> ssh_info" where
  "drop_kitten_host_loop info [] = info"
| "drop_kitten_host_loop info (arg # args) =
     (if \<not> startswith arg ''-'' then
        (if CHR ''@'' \<in> set arg \<or> CHR ''.'' \<in> set arg then info\<lparr>host := Some arg\<rparr>
         else drop_kitten_host_loop info args)
      else drop_kitten_host_loop info args)"

fun drop_ssh_host_loop :: "ssh_info \<Rightarrow> string list \<Rightarrow> ssh_info" where
  "drop_ssh_host_loop info [] = info"
| "drop_ssh_host_loop info (arg # args) =
     (if \<not> startswith arg ''-'' then info\<lparr>host := Some arg\<rparr>
      else drop_ssh_host_loop info args)"

fun drop_scan_procs :: "ssh_info \<Rightarrow> proc list \<Rightarrow> ssh_info" where
  "drop_scan_procs info [] = info"
| "drop_scan_procs info (p # ps) =
     (if argv p = [] then drop_scan_procs info ps
      else
        let cmd = lower (basename (hd (argv p))) in
          if cmd = ''kitten'' then
            (if length (argv p) > 1 \<and> argv p ! 1 \<in> set [''ssh'', ''run-shell'']
             then drop_kitten_host_loop (info\<lparr>is_ssh := True, is_kitten_ssh := True\<rparr>)
                    (drop 2 (argv p))
             else drop_scan_procs info ps)
          else if cmd = ''ssh'' then
            drop_ssh_host_loop (info\<lparr>is_ssh := True\<rparr>) (rev (drop 1 (argv p)))
          else if cmd \<in> set [''mosh'', ''mosh-client''] then
            info\<lparr>is_ssh := True\<rparr>
          else drop_scan_procs info ps)"

definition ssh_info0 :: ssh_info where
  "ssh_info0 = \<lparr>is_ssh = False, is_kitten_ssh = False, host = None\<rparr>"

definition check_ssh_session :: "window \<Rightarrow> ssh_info" where
  "check_ssh_session w =
     (case foreground_processes w of
        Inl e \<Rightarrow> ssh_info0
      | Inr ps \<Rightarrow> drop_scan_procs ssh_info0 ps)"

subsection \<open>The three families of the specification\<close>

text \<open>
  The command name of a descriptor is the lower-cased base name of \<open>cmdline[0]\<close>; a
  descriptor with an empty argument vector has none and matches no family.
\<close>

definition command_name :: "proc \<Rightarrow> string" where
  "command_name p = lower (basename (hd (argv p)))"

definition is_wrapper :: "proc \<Rightarrow> bool" where
  "is_wrapper p = (argv p \<noteq> [] \<and> command_name p = ''kitten'' \<and> 1 < length (argv p)
                   \<and> argv p ! 1 \<in> {''ssh'', ''run-shell''})"

definition is_plain_shell :: "proc \<Rightarrow> bool" where
  "is_plain_shell p = (argv p \<noteq> [] \<and> command_name p = ''ssh'')"

definition is_multiplexer :: "proc \<Rightarrow> bool" where
  "is_multiplexer p = (argv p \<noteq> [] \<and> command_name p \<in> {''mosh'', ''mosh-client''})"

definition matches_family :: "proc \<Rightarrow> bool" where
  "matches_family p = (is_wrapper p \<or> is_plain_shell p \<or> is_multiplexer p)"

definition plain_host :: "proc \<Rightarrow> string option" where
  "plain_host p = find (\<lambda>a. \<not> startswith a ''-'') (rev (drop 1 (argv p)))"

section \<open>Library functions and the environment\<close>










record url_parts =
  netloc :: string
  url_path :: string

text \<open>
  What the scripts read from outside themselves: the file system (\<open>os.path.exists\<close>,
  \<open>os.getcwd\<close>), the clock (\<open>time_ns env k\<close> is what the call number \<open>k\<close> of
  \<open>time.time_ns()\<close> returns during one run of a handler), the clipboard tools
  (\<open>subprocess.run\<close> gives a return code and the standard output, or raises), and three
  library functions taken as they are: \<open>hashlib.md5(s.encode()).hexdigest()\<close>,
  \<open>urllib.parse.unquote\<close> and \<open>urllib.parse.urlparse\<close> (which may raise \<open>ValueError\<close>).
\<close>

record env =
  path_exists :: "string \<Rightarrow> bool"
  getcwd :: string
  time_ns :: "nat \<Rightarrow> int"
  run :: "string list \<Rightarrow> error + int \<times> string"
  md5_hexdigest :: "string \<Rightarrow> string"
  unquote :: "string \<Rightarrow> string"
  urlparse :: "string \<Rightarrow> error + url_parts"



section \<open>\<open>smart_paste\<close>: paste handler\<close>










section \<open>\<open>ssh_drop_upload\<close>: drop handler\<close>










section \<open>Terms of the upload plan\<close>






section \<open>Example data\<close>












section \<open>Properties of the classifier\<close>

lemma trunc_kitten:
  "ssh_info.truncate (kitten_host_loop info args) = drop_kitten_host_loop (ssh_info.truncate info) args"
  by (induction args) (auto simp: ssh_info.truncate_def)

lemma trunc_ssh:
  "ssh_info.truncate (ssh_host_loop info args) = drop_ssh_host_loop (ssh_info.truncate info) args"
  by (induction args) (auto simp: ssh_info.truncate_def)

lemma trunc_scan:
  "ssh_info.truncate (scan_procs info ps) = drop_scan_procs (ssh_info.truncate info) ps"
proof (induction ps arbitrary: info)
  case Nil
  show ?case by simp
next
  case (Cons p ps)
  have upd: "\<And>i v. ssh_info.truncate (i\<lparr>pid := v\<rparr> :: info) = ssh_info.truncate i"
    by (simp add: ssh_info.truncate_def)
  have a: "\<And>i. ssh_info.truncate (i\<lparr>is_ssh := True\<rparr> :: info) = (ssh_info.truncate i)\<lparr>is_ssh := True\<rparr>"
    by (simp add: ssh_info.truncate_def)
  have b: "\<And>i. ssh_info.truncate (i\<lparr>is_ssh := True, is_kitten_ssh := True\<rparr> :: info)
           = (ssh_info.truncate i)\<lparr>is_ssh := True, is_kitten_ssh := True\<rparr>"
    by (simp add: ssh_info.truncate_def)
  show ?case
    by (simp add: Let_def Cons.IH trunc_kitten trunc_ssh upd a b del: set_simps)
qed

lemma trunc_info0: "ssh_info.truncate info0 = ssh_info0"
  by (simp add: info0_def ssh_info0_def ssh_info.truncate_def)

lemma trunc_classify: "ssh_info.truncate (is_ssh_window w) = check_ssh_session w"
proof (cases "foreground_processes w")
  case (Inl e)
  then show ?thesis by (simp add: is_ssh_window_def check_ssh_session_def trunc_info0)
next
  case (Inr ps)
  then show ?thesis
    by (simp add: is_ssh_window_def check_ssh_session_def trunc_scan trunc_info0)
qed

lemma skip_one:
  "\<not> matches_family p \<Longrightarrow> drop_scan_procs info (p # ps) = drop_scan_procs info ps"
  by (auto simp: matches_family_def is_wrapper_def is_plain_shell_def is_multiplexer_def
        command_name_def Let_def)

lemma skip_prefix:
  "\<forall>p\<in>set pre. \<not> matches_family p \<Longrightarrow> drop_scan_procs info (pre @ ps) = drop_scan_procs info ps"
proof (induction pre)
  case Nil
  show ?case by simp
next
  case (Cons q pre)
  then show ?case using skip_one[of q info "pre @ ps"] by simp
qed

lemma ssh_loop_fields:
  "is_ssh (drop_ssh_host_loop info args) = is_ssh info"
  "is_kitten_ssh (drop_ssh_host_loop info args) = is_kitten_ssh info"
  "host (drop_ssh_host_loop info args) =
     (case find (\<lambda>a. \<not> startswith a ''-'') args of None \<Rightarrow> host info | Some a \<Rightarrow> Some a)"
  by (induction args) auto

lemma ssh_step:
  "is_plain_shell p \<Longrightarrow> drop_scan_procs info (p # ps)
     = drop_ssh_host_loop (info\<lparr>is_ssh := True\<rparr>) (rev (drop 1 (argv p)))"
  by (simp add: is_plain_shell_def command_name_def Let_def)


lemma classify_fields:
  "is_ssh (is_ssh_window w) = is_ssh (check_ssh_session w)"
  "is_kitten_ssh (is_ssh_window w) = is_kitten_ssh (check_ssh_session w)"
  "host (is_ssh_window w) = host (check_ssh_session w)"
  using trunc_classify[of w] by (auto simp: ssh_info.truncate_def dest: arg_cong[where f = is_ssh]
       arg_cong[where f = is_kitten_ssh] arg_cong[where f = host])

lemma plain_result:
  assumes "\<forall>x\<in>set pre. \<not> matches_family x" and "is_plain_shell p"
  shows "drop_scan_procs ssh_info0 (pre @ p # rest)
         = \<lparr>is_ssh = True, is_kitten_ssh = False, host = plain_host p\<rparr>"
proof -
  have "drop_scan_procs ssh_info0 (pre @ p # rest) = drop_scan_procs ssh_info0 (p # rest)"
    using assms(1) by (rule skip_prefix)
  also have "\<dots> = drop_ssh_host_loop (ssh_info0\<lparr>is_ssh := True\<rparr>) (rev (drop 1 (argv p)))"
    using assms(2) by (rule ssh_step)
  also have "\<dots> = \<lparr>is_ssh = True, is_kitten_ssh = False, host = plain_host p\<rparr>"
    by (rule ssh_info.equality)
       (simp_all add: ssh_loop_fields ssh_info0_def plain_host_def split: option.split)
  finally show ?thesis .
qed

lemma local_result:
  assumes "\<forall>x\<in>set ps. \<not> matches_family x"
  shows "drop_scan_procs info ps = info"
  using skip_prefix[OF assms, of info "[]"] by simp

lemma ssh_loop_smart:
  "ssh_host_loop info args =
     info\<lparr>host := (case find (\<lambda>a. \<not> startswith a ''-'') args of
                      None \<Rightarrow> host info | Some a \<Rightarrow> Some a)\<rparr>"
  by (induction args) auto

lemma ssh_step_smart:
  "is_plain_shell p \<Longrightarrow> scan_procs info (p # ps)
     = ssh_host_loop (info\<lparr>pid := proc_pid p, is_ssh := True\<rparr>) (rev (drop 1 (argv p)))"
  by (simp add: is_plain_shell_def command_name_def Let_def)

text \<open>
  A command name written with U+212A KELVIN SIGN lower-cases to \<open>kitten\<close> as in Python, so
  such a descriptor is a transfer-capable wrapper.
\<close>

lemma kelvin_sign_lowers:
  "lower (basename (''/usr/local/bin/'' @ kelvin_sign @ ''ITTEN'')) = ''kitten''"
  by (simp add: lower_char_def kelvin_sign_def basename_def)

lemma kelvin_kitten_is_wrapper:
  "check_ssh_session \<lparr>foreground_processes = Inr
       [\<lparr>cmdline = Some [''/usr/local/bin/'' @ kelvin_sign @ ''ITTEN'', ''ssh'', ''user@box''],
         proc_pid = Some 5\<rparr>]\<rparr>
     = \<lparr>is_ssh = True, is_kitten_ssh = True, host = Some ''user@box''\<rparr>"
  by (simp add: check_ssh_session_def ssh_info0_def argv_def Let_def lower_char_def
        kelvin_sign_def basename_def startswith_def)

text \<open>
  Claim C2. When the first descriptor is a plain \<open>ssh\<close> and the second a
  \<open>kitten ssh\<close> or \<open>kitten run-shell\<close>, both classifiers return the plain-remote result
  of the first descriptor (\<open>is_ssh\<close> true, \<open>is_kitten_ssh\<close> false, the host scanned from
  the first descriptor), and the result is the one obtained from the first descriptor alone:
  nothing after the first match is looked at.
\<close>

theorem first_match_wins:
  assumes "is_plain_shell p1" and "is_wrapper p2"
    and "foreground_processes w = Inr (p1 # p2 # rest)"
  shows "is_ssh_window w
           = \<lparr>is_ssh = True, is_kitten_ssh = False, host = plain_host p1, pid = proc_pid p1\<rparr>
       \<and> check_ssh_session w
           = \<lparr>is_ssh = True, is_kitten_ssh = False, host = plain_host p1\<rparr>
       \<and> is_ssh_window w = is_ssh_window (w\<lparr>foreground_processes := Inr [p1]\<rparr>)
       \<and> check_ssh_session w = check_ssh_session (w\<lparr>foreground_processes := Inr [p1]\<rparr>)"
proof -
  have smart: "scan_procs info0 (p1 # ps)
      = \<lparr>is_ssh = True, is_kitten_ssh = False, host = plain_host p1, pid = proc_pid p1\<rparr>" for ps
  proof -
    have "scan_procs info0 (p1 # ps)
        = ssh_host_loop (info0\<lparr>pid := proc_pid p1, is_ssh := True\<rparr>) (rev (drop 1 (argv p1)))"
      using assms(1) by (rule ssh_step_smart)
    also have "\<dots> = \<lparr>is_ssh = True, is_kitten_ssh = False, host = plain_host p1,
                       pid = proc_pid p1\<rparr>"
      by (simp add: ssh_loop_smart info0_def plain_host_def split: option.split)
    finally show ?thesis .
  qed
  have dropped: "drop_scan_procs ssh_info0 (p1 # ps)
      = \<lparr>is_ssh = True, is_kitten_ssh = False, host = plain_host p1\<rparr>" for ps
    using plain_result[of "[]" p1 ps] assms(1) by simp
  show ?thesis
    using assms(3) by (simp add: is_ssh_window_def check_ssh_session_def smart dropped
        del: scan_procs.simps drop_scan_procs.simps)
qed

text \<open>
  Claim C7. When reading the process list raises, or the list is empty, or no descriptor of it
  matches a family (descriptors with an empty argument vector match none), both classifiers
  return the local result: \<open>is_ssh\<close> false, \<open>is_kitten_ssh\<close> false, no host. The
  classifiers are total functions into the info record: the \<open>except\<close> clause leaves no
  path on which they raise.
\<close>

theorem no_match_is_local:
  assumes "foreground_processes w = Inl e
         \<or> (\<exists>ps. foreground_processes w = Inr ps \<and> (\<forall>p\<in>set ps. \<not> matches_family p))"
  shows "check_ssh_session w = \<lparr>is_ssh = False, is_kitten_ssh = False, host = None\<rparr>
       \<and> \<not> is_ssh (is_ssh_window w) \<and> \<not> is_kitten_ssh (is_ssh_window w)
       \<and> host (is_ssh_window w) = None"
proof -
  have "check_ssh_session w = ssh_info0"
    using assms by (auto simp: check_ssh_session_def local_result)
  then show ?thesis by (simp add: classify_fields ssh_info0_def)
qed

text \<open>
  Claim C8. At the first matching descriptor, when its command name is \<open>ssh\<close>, the host
  is the first token of \<open>argv[1:]\<close>, read from the right, that does not begin with
  \<open>-\<close> (none when every token does), and the session is plain remote.
\<close>

theorem plain_shell_host:
  assumes "foreground_processes w = Inr (pre @ p # rest)"
    and "\<forall>x\<in>set pre. \<not> matches_family x" and "is_plain_shell p"
  shows "host (is_ssh_window w) = find (\<lambda>a. \<not> startswith a ''-'') (rev (drop 1 (argv p)))
       \<and> is_ssh (is_ssh_window w) \<and> \<not> is_kitten_ssh (is_ssh_window w)
       \<and> check_ssh_session w
           = \<lparr>is_ssh = True, is_kitten_ssh = False,
              host = find (\<lambda>a. \<not> startswith a ''-'') (rev (drop 1 (argv p)))\<rparr>"
proof -
  have "check_ssh_session w = \<lparr>is_ssh = True, is_kitten_ssh = False, host = plain_host p\<rparr>"
    using assms by (simp add: check_ssh_session_def plain_result)
  then show ?thesis by (simp add: classify_fields plain_host_def)
qed

lemma kitten_step:
  assumes "argv p \<noteq> []" and "command_name p = ''kitten''"
    and "\<not> (1 < length (argv p) \<and> argv p ! 1 \<in> {''ssh'', ''run-shell''})"
  shows "drop_scan_procs info (p # ps) = drop_scan_procs info ps"
  using assms by (auto simp: command_name_def Let_def)

text \<open>
  Claim C10. A first descriptor named \<open>kitten\<close> whose argument vector has fewer than
  two elements, or whose second element is neither \<open>ssh\<close> nor \<open>run-shell\<close>, does not
  end the classification: the result (apart from the \<open>pid\<close> that \<open>is_ssh_window\<close>
  records) is that of the remaining descriptors. So a later \<open>ssh\<close> descriptor, reached
  over descriptors that match no family, gives the plain-remote result with its host, and
  when no later descriptor matches the result is local with no host.
\<close>

theorem kitten_without_subcommand_continues:
  assumes "argv p \<noteq> []" and "command_name p = ''kitten''"
    and "\<not> (1 < length (argv p) \<and> argv p ! 1 \<in> {''ssh'', ''run-shell''})"
    and "foreground_processes w = Inr (p # rest)"
  shows "check_ssh_session w = check_ssh_session (w\<lparr>foreground_processes := Inr rest\<rparr>)
       \<and> ssh_info.truncate (is_ssh_window w)
           = ssh_info.truncate (is_ssh_window (w\<lparr>foreground_processes := Inr rest\<rparr>))
       \<and> (\<forall>pre q more. rest = pre @ q # more \<and> (\<forall>x\<in>set pre. \<not> matches_family x)
              \<and> is_plain_shell q \<longrightarrow>
            check_ssh_session w
              = \<lparr>is_ssh = True, is_kitten_ssh = False, host = plain_host q\<rparr>
            \<and> is_ssh (is_ssh_window w) \<and> \<not> is_kitten_ssh (is_ssh_window w)
            \<and> host (is_ssh_window w) = plain_host q)
       \<and> ((\<forall>x\<in>set rest. \<not> matches_family x) \<longrightarrow>
            check_ssh_session w = \<lparr>is_ssh = False, is_kitten_ssh = False, host = None\<rparr>
            \<and> \<not> is_ssh (is_ssh_window w) \<and> \<not> is_kitten_ssh (is_ssh_window w)
            \<and> host (is_ssh_window w) = None)"
proof -
  have step: "check_ssh_session w = drop_scan_procs ssh_info0 rest"
    using assms(4) kitten_step[OF assms(1-3)] by (simp add: check_ssh_session_def)
  have a: "check_ssh_session w = check_ssh_session (w\<lparr>foreground_processes := Inr rest\<rparr>)"
    using step by (simp add: check_ssh_session_def)
  have b: "ssh_info.truncate (is_ssh_window w)
           = ssh_info.truncate (is_ssh_window (w\<lparr>foreground_processes := Inr rest\<rparr>))"
    using a by (simp add: trunc_classify)
  have c: "check_ssh_session w = \<lparr>is_ssh = True, is_kitten_ssh = False, host = plain_host q\<rparr>"
    if "rest = pre @ q # more" "\<forall>x\<in>set pre. \<not> matches_family x" "is_plain_shell q"
    for pre q more
    using step that by (simp add: plain_result)
  have d: "check_ssh_session w = \<lparr>is_ssh = False, is_kitten_ssh = False, host = None\<rparr>"
    if "\<forall>x\<in>set rest. \<not> matches_family x"
    using step that by (simp add: local_result ssh_info0_def)
  show ?thesis
    using a b c d by (simp add: classify_fields)
qed


lemma eval_names:
  "lower (basename ''ssh'') = ''ssh''"
  "lower (basename ''kitten'') = ''kitten''"
  "lower (basename ''/usr/local/bin/Kitten'') = ''kitten''"
  "lower (basename ''/bin/zsh'') = ''zsh''"
  by (simp_all add: lower_char_def kelvin_sign_def basename_def)

text \<open>
  The hypotheses of C2 at the list \<open>ssh -p 22 user@box\<close>, \<open>kitten ssh user@box\<close>.
\<close>

theorem first_match_wins_witness:
  "is_plain_shell \<lparr>cmdline = Some [''ssh'', ''-p'', ''22'', ''user@box''], proc_pid = Some 4242\<rparr>
   \<and> is_wrapper \<lparr>cmdline = Some [''kitten'', ''ssh'', ''user@box''], proc_pid = Some 4100\<rparr>
   \<and> is_ssh_window \<lparr>foreground_processes = Inr
        [\<lparr>cmdline = Some [''ssh'', ''-p'', ''22'', ''user@box''], proc_pid = Some 4242\<rparr>,
         \<lparr>cmdline = Some [''kitten'', ''ssh'', ''user@box''], proc_pid = Some 4100\<rparr>]\<rparr>
       = \<lparr>is_ssh = True, is_kitten_ssh = False, host = Some ''user@box'', pid = Some 4242\<rparr>
   \<and> check_ssh_session \<lparr>foreground_processes = Inr
        [\<lparr>cmdline = Some [''ssh'', ''-p'', ''22'', ''user@box''], proc_pid = Some 4242\<rparr>,
         \<lparr>cmdline = Some [''kitten'', ''ssh'', ''user@box''], proc_pid = Some 4100\<rparr>]\<rparr>
       = \<lparr>is_ssh = True, is_kitten_ssh = False, host = Some ''user@box''\<rparr>"
proof -
  let ?p1 = "\<lparr>cmdline = Some [''ssh'', ''-p'', ''22'', ''user@box''], proc_pid = Some 4242\<rparr>"
  let ?p2 = "\<lparr>cmdline = Some [''kitten'', ''ssh'', ''user@box''], proc_pid = Some 4100\<rparr>"
  have h1: "is_plain_shell ?p1"
    by (simp add: is_plain_shell_def command_name_def argv_def eval_names)
  have h2: "is_wrapper ?p2"
    by (simp add: is_wrapper_def command_name_def argv_def eval_names)
  have h3: "foreground_processes \<lparr>foreground_processes = Inr [?p1, ?p2]\<rparr> = Inr (?p1 # ?p2 # [])"
    by simp
  have ph: "plain_host ?p1 = Some ''user@box''"
    by (simp add: plain_host_def argv_def startswith_def)
  show ?thesis
    using h1 h2 first_match_wins [OF h1 h2 h3] by (simp add: ph)
qed

text \<open>
  The hypothesis of C7 at a list of three descriptors (no \<open>cmdline\<close>, an empty one, a
  login shell), and the unreadable list.
\<close>

theorem no_match_is_local_witness:
  "\<not> matches_family \<lparr>cmdline = None, proc_pid = Some 1\<rparr>
   \<and> \<not> matches_family \<lparr>cmdline = Some [], proc_pid = Some 2\<rparr>
   \<and> \<not> matches_family \<lparr>cmdline = Some [''/bin/zsh'', ''-l''], proc_pid = Some 3\<rparr>
   \<and> check_ssh_session \<lparr>foreground_processes = Inr
          [\<lparr>cmdline = None, proc_pid = Some 1\<rparr>,
           \<lparr>cmdline = Some [], proc_pid = Some 2\<rparr>,
           \<lparr>cmdline = Some [''/bin/zsh'', ''-l''], proc_pid = Some 3\<rparr>]\<rparr>
       = \<lparr>is_ssh = False, is_kitten_ssh = False, host = None\<rparr>
   \<and> \<not> is_ssh (is_ssh_window \<lparr>foreground_processes = Inr
          [\<lparr>cmdline = None, proc_pid = Some 1\<rparr>,
           \<lparr>cmdline = Some [], proc_pid = Some 2\<rparr>,
           \<lparr>cmdline = Some [''/bin/zsh'', ''-l''], proc_pid = Some 3\<rparr>]\<rparr>)
   \<and> host (is_ssh_window \<lparr>foreground_processes = Inr
          [\<lparr>cmdline = None, proc_pid = Some 1\<rparr>,
           \<lparr>cmdline = Some [], proc_pid = Some 2\<rparr>,
           \<lparr>cmdline = Some [''/bin/zsh'', ''-l''], proc_pid = Some 3\<rparr>]\<rparr>) = None
   \<and> is_ssh_window \<lparr>foreground_processes = Inl OSError\<rparr>
       = \<lparr>is_ssh = False, is_kitten_ssh = False, host = None, pid = None\<rparr>"
proof -
  let ?ps = "[\<lparr>cmdline = None, proc_pid = Some 1\<rparr>,
              \<lparr>cmdline = Some [], proc_pid = Some 2\<rparr>,
              \<lparr>cmdline = Some [''/bin/zsh'', ''-l''], proc_pid = Some 3\<rparr>]"
  have h: "\<forall>p \<in> set ?ps. \<not> matches_family p"
    by (simp add: matches_family_def is_wrapper_def is_plain_shell_def is_multiplexer_def
          command_name_def argv_def eval_names)
  have hyp: "foreground_processes \<lparr>foreground_processes = Inr ?ps\<rparr> = Inl AttributeError
           \<or> (\<exists>ps. foreground_processes \<lparr>foreground_processes = Inr ?ps\<rparr> = Inr ps
                  \<and> (\<forall>p\<in>set ps. \<not> matches_family p))"
    using h by simp
  have unreadable: "is_ssh_window \<lparr>foreground_processes = Inl OSError\<rparr>
       = \<lparr>is_ssh = False, is_kitten_ssh = False, host = None, pid = None\<rparr>"
    by (simp add: is_ssh_window_def info0_def)
  show ?thesis
    using h no_match_is_local [OF hyp] unreadable by simp
qed

text \<open>
  The scenario of C8: \<open>ssh -p 22 user@box\<close> gives the host \<open>user@box\<close>.
\<close>

theorem plain_shell_host_witness:
  "is_plain_shell \<lparr>cmdline = Some [''ssh'', ''-p'', ''22'', ''user@box''], proc_pid = Some 4242\<rparr>
   \<and> host (is_ssh_window \<lparr>foreground_processes = Inr
        [\<lparr>cmdline = Some [''ssh'', ''-p'', ''22'', ''user@box''], proc_pid = Some 4242\<rparr>]\<rparr>)
       = Some ''user@box''
   \<and> is_ssh (is_ssh_window \<lparr>foreground_processes = Inr
        [\<lparr>cmdline = Some [''ssh'', ''-p'', ''22'', ''user@box''], proc_pid = Some 4242\<rparr>]\<rparr>)
   \<and> \<not> is_kitten_ssh (is_ssh_window \<lparr>foreground_processes = Inr
        [\<lparr>cmdline = Some [''ssh'', ''-p'', ''22'', ''user@box''], proc_pid = Some 4242\<rparr>]\<rparr>)
   \<and> check_ssh_session \<lparr>foreground_processes = Inr
        [\<lparr>cmdline = Some [''ssh'', ''-p'', ''22'', ''user@box''], proc_pid = Some 4242\<rparr>]\<rparr>
       = \<lparr>is_ssh = True, is_kitten_ssh = False, host = Some ''user@box''\<rparr>"
proof -
  let ?p = "\<lparr>cmdline = Some [''ssh'', ''-p'', ''22'', ''user@box''], proc_pid = Some 4242\<rparr>"
  have h1: "is_plain_shell ?p"
    by (simp add: is_plain_shell_def command_name_def argv_def eval_names)
  have h0: "foreground_processes \<lparr>foreground_processes = Inr [?p]\<rparr> = Inr ([] @ ?p # [])"
    by simp
  have h2: "\<forall>x\<in>set ([] :: proc list). \<not> matches_family x"
    by simp
  have f: "find (\<lambda>a. \<not> startswith a ''-'') (rev (drop 1 (argv ?p))) = Some ''user@box''"
    by (simp add: argv_def startswith_def)
  show ?thesis
    using h1 plain_shell_host [OF h0 h2 h1, unfolded f] by simp
qed

text \<open>
  The hypotheses of C10 at \<open>/usr/local/bin/Kitten icat x.png\<close> followed by
  \<open>ssh -p 22 user@box\<close>.
\<close>

theorem kitten_without_subcommand_continues_witness:
  "command_name \<lparr>cmdline = Some [''/usr/local/bin/Kitten'', ''icat'', ''x.png''], proc_pid = Some 7\<rparr>
     = ''kitten''
   \<and> check_ssh_session \<lparr>foreground_processes = Inr
        [\<lparr>cmdline = Some [''/usr/local/bin/Kitten'', ''icat'', ''x.png''], proc_pid = Some 7\<rparr>,
         \<lparr>cmdline = Some [''ssh'', ''-p'', ''22'', ''user@box''], proc_pid = Some 8\<rparr>]\<rparr>
       = \<lparr>is_ssh = True, is_kitten_ssh = False, host = Some ''user@box''\<rparr>
   \<and> host (is_ssh_window \<lparr>foreground_processes = Inr
        [\<lparr>cmdline = Some [''/usr/local/bin/Kitten'', ''icat'', ''x.png''], proc_pid = Some 7\<rparr>,
         \<lparr>cmdline = Some [''ssh'', ''-p'', ''22'', ''user@box''], proc_pid = Some 8\<rparr>]\<rparr>)
       = Some ''user@box''"
proof -
  let ?k = "\<lparr>cmdline = Some [''/usr/local/bin/Kitten'', ''icat'', ''x.png''], proc_pid = Some 7\<rparr>"
  let ?p = "\<lparr>cmdline = Some [''ssh'', ''-p'', ''22'', ''user@box''], proc_pid = Some 8\<rparr>"
  have h1: "argv ?k \<noteq> []" by (simp add: argv_def)
  have h2: "command_name ?k = ''kitten''" by (simp add: command_name_def argv_def eval_names)
  have h3: "\<not> (1 < length (argv ?k) \<and> argv ?k ! 1 \<in> {''ssh'', ''run-shell''})"
    by (simp add: argv_def)
  have h4: "foreground_processes \<lparr>foreground_processes = Inr [?k, ?p]\<rparr> = Inr (?k # [?p])"
    by simp
  have q: "is_plain_shell ?p"
    by (simp add: is_plain_shell_def command_name_def argv_def eval_names)
  have ph: "plain_host ?p = Some ''user@box''"
    by (simp add: plain_host_def argv_def startswith_def)
  have later: "[?p] = [] @ ?p # [] \<and> (\<forall>x\<in>set ([] :: proc list). \<not> matches_family x)
               \<and> is_plain_shell ?p"
    using q by simp
  show ?thesis
    using h2 later kitten_without_subcommand_continues [OF h1 h2 h3 h4] ph by metis
qed

section \<open>Properties of the upload plan and the handlers\<close>





































end
